theory Spec2Isabelle
  imports Main "HOL-Library.Multiset"
begin

section \<open>Python string primitives used by the batch script\<close>

text \<open>
  Python \<open>str\<close> values are modelled as \<open>string\<close> (a list of characters).
  \<open>contains p s\<close> is Python's \<open>p in s\<close>: some suffix of \<open>s\<close> starts with \<open>p\<close>.
\<close>

fun starts_with :: "string \<Rightarrow> string \<Rightarrow> bool" where
  "starts_with [] s = True"
| "starts_with (a # p) [] = False"
| "starts_with (a # p) (c # s) = (a = c \<and> starts_with p s)"

fun contains :: "string \<Rightarrow> string \<Rightarrow> bool" where
  "contains p [] = starts_with p []"
| "contains p (c # s) = (starts_with p (c # s) \<or> contains p s)"

text \<open>
  \<open>str.replace(old, new)\<close> with a non-empty \<open>old\<close>: scan from the left, replace the
  leftmost occurrence and continue behind it (occurrences never overlap).
\<close>

fun replace_scan :: "string \<Rightarrow> string \<Rightarrow> string \<Rightarrow> string" where
  "replace_scan old new [] = []"
| "replace_scan old new (c # s) =
     (if starts_with old (c # s)
      then new @ replace_scan old new (drop (length old - 1) s)
      else c # replace_scan old new s)"

text \<open>
  \<open>str.replace\<close> with an empty \<open>old\<close> inserts \<open>new\<close> before every character and at
  the end: \<open>"ab".replace("", "X") == "XaXbX"\<close>.
\<close>

definition replace :: "string \<Rightarrow> string \<Rightarrow> string \<Rightarrow> string" where
  "replace old new s =
     (if old = [] then new @ concat (map (\<lambda>c. c # new) s)
      else replace_scan old new s)"

text \<open>Python compares strings by code point, position by position.\<close>

fun str_less :: "string \<Rightarrow> string \<Rightarrow> bool" where
  "str_less [] [] = False"
| "str_less [] (b # t) = True"
| "str_less (a # s) [] = False"
| "str_less (a # s) (b # t) =
     ((of_char a :: nat) < of_char b \<or> (a = b \<and> str_less s t))"

subsection \<open>Decimal rendering\<close>

definition digit_char :: "nat \<Rightarrow> char" where
  "digit_char d = char_of (48 + d)"

text \<open>\<open>str(n)\<close> for a non-negative integer.\<close>

function str_nat :: "nat \<Rightarrow> string" where
  "str_nat n = (if n < 10 then [digit_char n] else str_nat (n div 10) @ [digit_char (n mod 10)])"
  by pat_completeness auto
termination
  by (relation "measure id") auto

declare str_nat.simps [simp del]

text \<open>\<open>str(n)\<close> for any integer.\<close>

definition str_int :: "int \<Rightarrow> string" where
  "str_int n = (if n < 0 then CHR ''-'' # str_nat (nat (- n)) else str_nat (nat n))"

text \<open>
  The format specification \<open>0{w}d\<close> applied to a non-negative integer: the decimal
  digits, padded on the left with zeros up to width \<open>w\<close> (never truncated).
\<close>

definition format_0d :: "nat \<Rightarrow> nat \<Rightarrow> string" where
  "format_0d w n = replicate (w - length (str_nat n)) CHR ''0'' @ str_nat n"

section \<open>Case identifiers\<close>

text \<open>
  Lines 282-283 and 455-456 of the script:
  \<^verbatim>\<open>num_digits = len(str(num_rows))\<close>,
  \<^verbatim>\<open>case_number = f"Case{row_index + 1:0{num_digits}d}"\<close>.
\<close>

definition num_digits :: "nat \<Rightarrow> nat" where
  "num_digits num_rows = length (str_nat num_rows)"

definition case_number :: "nat \<Rightarrow> nat \<Rightarrow> string" where
  "case_number num_rows row_index =
     ''Case'' @ format_0d (num_digits num_rows) (row_index + 1)"


section \<open>Values of the parameter table\<close>

text \<open>
  The parameter table \<open>MacroParamToReplaceValue\<close> is a dictionary from a placeholder
  to the list of its per-case values. Python dictionaries iterate in insertion order,
  so the table is an association list. A cell read from the sheet is an integer or a
  text; floating-point cells are outside the model.
\<close>

datatype cell = IntCell int | StrCell string

fun str_cell :: "cell \<Rightarrow> string" where
  "str_cell (IntCell n) = str_int n"
| "str_cell (StrCell s) = s"

type_synonym param_table = "(string \<times> cell list) list"

section \<open>Paths\<close>

definition backslash :: char where
  "backslash = CHR 0x5C"

text \<open>\<open>normalize_path\<close> (lines 119-121): \<^verbatim>\<open>path.replace('\\', '/')\<close>.\<close>

definition normalize_path :: "string \<Rightarrow> string" where
  "normalize_path path = replace [backslash] ''/'' path"

definition ends_with :: "string \<Rightarrow> string \<Rightarrow> bool" where
  "ends_with s suffix = starts_with (rev suffix) (rev s)"

definition is_sep :: "char \<Rightarrow> bool" where
  "is_sep c = (c = backslash \<or> c = CHR ''/'')"

text \<open>
  \<open>os.path.splitext\<close> as on Windows, where the script runs (both separators count):
  the extension starts at the last dot of the last path component, unless only dots
  precede that dot in the component.
\<close>

definition splitext :: "string \<Rightarrow> string \<times> string" where
  "splitext p =
     (let start = length p - length (takeWhile (\<lambda>c. \<not> is_sep c) (rev p));
          name = drop start p
      in if CHR ''.'' \<in> set name
         then (let dot = length name - 1 - length (takeWhile (\<lambda>c. c \<noteq> CHR ''.'') (rev name))
               in if \<exists>c \<in> set (take dot name). c \<noteq> CHR ''.''
                  then (take (start + dot) p, drop (start + dot) p)
                  else (p, []))
         else (p, []))"

text \<open>
  \<open>os.path.basename\<close>: the text behind the last separator (a drive letter without a
  separator behind it is not modelled).
\<close>

definition basename :: "string \<Rightarrow> string" where
  "basename p = rev (takeWhile (\<lambda>c. \<not> is_sep c) (rev p))"

text \<open>\<open>os.path.join\<close> of a directory and a relative name without drive.\<close>

definition path_join :: "string \<Rightarrow> string \<Rightarrow> string" where
  "path_join d name =
     (if d = [] \<or> is_sep (last d) \<or> last d = CHR '':'' then d @ name
      else d @ backslash # name)"

section \<open>The world the script acts on\<close>

datatype error =
    ValueError
  | IndexError
  | UnboundLocalError
  | FileNotFoundError string
  | SameFileError string
  | PermissionError string

datatype level = INFO | ERROR

datatype message =
    DefaultOutputPath string
  | UserConfigPath string
  | OutputDirConfirmed string
  | OutputDirFailed error
  | CheckPathHint
  | CountMismatch nat nat
  | CountMatch nat nat
  | CaseStarted string
  | CaseLogFile string
  | CaseSucceeded string
  | CaseFailed string int
  | CaseError string error
  | RunFinished nat nat
  | CustomTemplateFound
  | CustomTemplateName string
  | OutputPathHeader

text \<open>One \<open>os.system\<close> call of \<open>execute_case\<close>: the fields of the command line.\<close>

record command =
  cwd :: string
  np :: int
  power_sim :: string
  batch_macro :: string
  log_to :: string

text \<open>
  \<open>files\<close> holds the text of every regular file, \<open>dirs\<close> the directories created,
  \<open>unwritable\<close> the paths at which creating, writing or removing raises
  \<open>PermissionError\<close>, \<open>log\<close> the records handed to \<open>logging\<close> (oldest first) and
  \<open>commands\<close> the command lines handed to \<open>os.system\<close>.
\<close>

record world =
  files :: "string \<rightharpoonup> string"
  dirs :: "string set"
  unwritable :: "string set"
  log :: "(level \<times> message) list"
  commands :: "command list"

datatype 'a outcome = Raised error world | Returned 'a world

definition logging :: "level \<Rightarrow> message \<Rightarrow> world \<Rightarrow> world" where
  "logging l m w = w\<lparr>log := log w @ [(l, m)]\<rparr>"

text \<open>
  The directory part of a path (\<open>os.path.dirname\<close> before trailing separators are
  stripped) and the name of a directory up to spelling: on Windows both separators
  mean the same and trailing separators do not count. The empty name stands for the
  working directory or the root, which always exist; any other directory exists when
  it has been created under some spelling.
\<close>

definition parent_dir :: "string \<Rightarrow> string" where
  "parent_dir p = take (length p - length (basename p)) p"

definition canon_dir :: "string \<Rightarrow> string" where
  "canon_dir d = rev (dropWhile is_sep (rev (normalize_path d)))"

definition dir_exists :: "world \<Rightarrow> string \<Rightarrow> bool" where
  "dir_exists w d = (canon_dir d = [] \<or> (\<exists>x \<in> dirs w. canon_dir x = canon_dir d))"

text \<open>
  \<open>shutil.copy(src, dst)\<close> for a destination that is not a directory: a missing
  source raises, the same file on both sides raises, a destination whose directory
  does not exist raises \<open>FileNotFoundError\<close>, and so does (with \<open>PermissionError\<close>) a
  destination that cannot be written.
\<close>

definition shutil_copy :: "string \<Rightarrow> string \<Rightarrow> world \<Rightarrow> unit outcome" where
  "shutil_copy src dst w =
     (case files w src of
        None \<Rightarrow> Raised (FileNotFoundError src) w
      | Some content \<Rightarrow>
          if src = dst then Raised (SameFileError src) w
          else if \<not> dir_exists w (parent_dir dst) then Raised (FileNotFoundError dst) w
          else if dst \<in> unwritable w then Raised (PermissionError dst) w
          else Returned () (w\<lparr>files := (files w)(dst \<mapsto> content)\<rparr>))"

text \<open>\<open>open(path, 'r+')\<close> followed by \<open>read()\<close>: the content, or the error of \<open>open\<close>.\<close>

definition open_read :: "string \<Rightarrow> world \<Rightarrow> string outcome" where
  "open_read path w =
     (case files w path of
        None \<Rightarrow> Raised (FileNotFoundError path) w
      | Some content \<Rightarrow>
          if path \<in> unwritable w then Raised (PermissionError path) w
          else Returned content w)"

text \<open>\<open>seek(0)\<close>, \<open>write(content)\<close>, \<open>truncate()\<close> on the open file.\<close>

definition rewrite :: "string \<Rightarrow> string \<Rightarrow> world \<Rightarrow> world" where
  "rewrite path content w = w\<lparr>files := (files w)(path \<mapsto> content)\<rparr>"

text \<open>
  \<open>os.makedirs(path, exist_ok=True)\<close>: an existing directory is accepted; a
  regular file at the path or a path that cannot be created raises.
\<close>

definition makedirs :: "string \<Rightarrow> world \<Rightarrow> unit outcome" where
  "makedirs path w =
     (if path \<in> dirs w then Returned () w
      else if path \<in> dom (files w) \<or> path \<in> unwritable w then Raised (PermissionError path) w
      else Returned () (w\<lparr>dirs := insert path (dirs w)\<rparr>))"

section \<open>Required templates\<close>

text \<open>\<open>min(len(v) for v in table.values())\<close>: \<open>ValueError\<close> on an empty table.\<close>

fun min_len :: "param_table \<Rightarrow> nat option" where
  "min_len [] = None"
| "min_len ((k, v) # rest) =
     (case min_len rest of None \<Rightarrow> Some (length v) | Some m \<Rightarrow> Some (min (length v) m))"

text \<open>
  Lines 308-309: every placeholder of the table, in the table's order, is replaced in
  the whole content by \<open>str\<close> of its value in the row; a row index beyond a value list
  would raise \<open>IndexError\<close>.
\<close>

fun replace_params :: "param_table \<Rightarrow> nat \<Rightarrow> string \<Rightarrow> string option" where
  "replace_params [] row_index content = Some content"
| "replace_params ((column_name, column_value) # rest) row_index content =
     (if row_index < length column_value
      then replace_params rest row_index
             (replace column_name (str_cell (column_value ! row_index)) content)
      else None)"

text \<open>Lines 305-309: the replacements applied to the copied macro, in this order.\<close>

definition java_content ::
  "param_table \<Rightarrow> string \<Rightarrow> string \<Rightarrow> string \<Rightarrow> nat \<Rightarrow> string \<Rightarrow> string option" where
  "java_content table output_folder_path output_filename case_no row_index content =
     (let content1 = replace ''CaseName'' case_no content;
          content2 = replace ''template_Macro'' (fst (splitext output_filename)) content1;
          content3 = replace ''SavePath''
                       (normalize_path (output_folder_path @ ''/'' @ case_no @ ''.sim'')) content2
      in replace_params table row_index content3)"

text \<open>
  The body of the inner loop (lines 286-312) for one template of one case. The pair \<open>acc\<close> holds the accumulated \<open>sim_files\<close> and \<open>java_files\<close>.
\<close>

definition process_required_template ::
  "param_table \<Rightarrow> string \<Rightarrow> nat \<Rightarrow> nat \<Rightarrow> string \<times> string \<Rightarrow>
   string list \<times> string list \<Rightarrow> world \<Rightarrow> (string list \<times> string list) outcome" where
  "process_required_template table output_folder_path num_rows row_index template acc w =
     (let case_no = case_number num_rows row_index;
          display_name = fst template;
          template_path = snd template;
          sim_files = fst acc;
          java_files = snd acc
      in if ends_with display_name ''.sim'' then
           (let output_filename = case_no @ ''.sim'';
                output_path = normalize_path (output_folder_path @ ''/'' @ output_filename)
            in case shutil_copy template_path output_path w of
                 Raised e w' \<Rightarrow> Raised e w'
               | Returned u w' \<Rightarrow> Returned (sim_files @ [output_path], java_files) w')
         else if ends_with display_name ''.java'' then
           (let output_filename =
                  fst (splitext display_name) @ ''_'' @ case_no @ snd (splitext display_name);
                output_path = normalize_path (output_folder_path @ ''/'' @ output_filename)
            in case shutil_copy template_path output_path w of
                 Raised e w' \<Rightarrow> Raised e w'
               | Returned u w' \<Rightarrow>
                   (case open_read output_path w' of
                      Raised e w'' \<Rightarrow> Raised e w''
                    | Returned content w'' \<Rightarrow>
                        (case java_content table output_folder_path output_filename
                                case_no row_index content of
                           None \<Rightarrow> Raised IndexError w''
                         | Some content' \<Rightarrow>
                             Returned (sim_files, java_files @ [output_path])
                               (rewrite output_path content' w''))))
         else Returned acc w)"

text \<open>The inner loop over the templates, stopping at the first exception.\<close>

fun for_required_templates ::
  "param_table \<Rightarrow> string \<Rightarrow> nat \<Rightarrow> nat \<Rightarrow> (string \<times> string) list \<Rightarrow>
   string list \<times> string list \<Rightarrow> world \<Rightarrow> (string list \<times> string list) outcome" where
  "for_required_templates table out num_rows row_index [] acc w = Returned acc w"
| "for_required_templates table out num_rows row_index (t # ts) acc w =
     (case process_required_template table out num_rows row_index t acc w of
        Raised e w' \<Rightarrow> Raised e w'
      | Returned acc' w' \<Rightarrow> for_required_templates table out num_rows row_index ts acc' w')"

text \<open>The outer loop over the row indices, stopping at the first exception.\<close>

fun for_required_rows ::
  "param_table \<Rightarrow> string \<Rightarrow> nat \<Rightarrow> (string \<times> string) list \<Rightarrow> nat list \<Rightarrow>
   string list \<times> string list \<Rightarrow> world \<Rightarrow> (string list \<times> string list) outcome" where
  "for_required_rows table out num_rows templates [] acc w = Returned acc w"
| "for_required_rows table out num_rows templates (row_index # rows) acc w =
     (case for_required_templates table out num_rows row_index templates acc w of
        Raised e w' \<Rightarrow> Raised e w'
      | Returned acc' w' \<Rightarrow> for_required_rows table out num_rows templates rows acc' w')"

text \<open>
  \<open>process_required_templates\<close> (lines 241-314). \<open>required_templates\<close> is the
  dictionary of display name and template path, in insertion order.
\<close>

definition process_required_templates ::
  "(string \<times> string) list \<Rightarrow> param_table \<Rightarrow> string \<Rightarrow> world \<Rightarrow>
   (string list \<times> string list) outcome" where
  "process_required_templates required_templates table output_folder_path w =
     (case min_len table of
        None \<Rightarrow> Raised ValueError w
      | Some num_rows \<Rightarrow>
          for_required_rows table output_folder_path num_rows required_templates
            [0..<num_rows] ([], []) w)"

text \<open>
  The dictionary built by \<open>get_required_templates\<close> (lines 136-152) from the paths of
  the two templates, which it has checked to exist.
\<close>

definition required_dict :: "string \<Rightarrow> string \<Rightarrow> (string \<times> string) list" where
  "required_dict macro_path case_path = [(''Macro.java'', macro_path), (''Case.sim'', case_path)]"


section \<open>Custom templates\<close>

text \<open>\<open>d[k] = v\<close> on a dictionary in insertion order, and \<open>d.update(u)\<close>.\<close>

fun dict_set :: "(string \<times> string) list \<Rightarrow> string \<Rightarrow> string \<Rightarrow> (string \<times> string) list" where
  "dict_set [] k v = [(k, v)]"
| "dict_set ((k', v') # d) k v = (if k' = k then (k, v) # d else (k', v') # dict_set d k v)"

fun dict_update :: "(string \<times> string) list \<Rightarrow> (string \<times> string) list \<Rightarrow> (string \<times> string) list" where
  "dict_update d [] = d"
| "dict_update d ((k, v) # u) = dict_update (dict_set d k v) u"

text \<open>
  The scan of \<open>get_custom_templates\<close> (lines 177-188) over \<open>os.listdir(search_dir)\<close>:
  the two required templates are skipped, every other regular file whose name starts
  with \<open>template_\<close> is entered under its name without the prefix. The script
  directory is an absolute path, so \<open>os.path.abspath\<close> of the joined path is taken to be
  the joined path.
\<close>

fun scan_templates ::
  "string \<Rightarrow> string list \<Rightarrow> (string \<times> string) list \<Rightarrow> world \<Rightarrow> (string \<times> string) list \<times> world" where
  "scan_templates search_dir [] custom_templates w = (custom_templates, w)"
| "scan_templates search_dir (filename # rest) custom_templates w =
     (if filename \<in> set [''template_Macro.java'', ''template_Case.sim'']
      then scan_templates search_dir rest custom_templates w
      else if starts_with ''template_'' filename
              \<and> path_join search_dir filename \<in> dom (files w)
      then scan_templates search_dir rest
             (dict_set custom_templates (drop 9 filename) (path_join search_dir filename))
             (logging INFO (CustomTemplateName filename) (logging INFO CustomTemplateFound w))
      else scan_templates search_dir rest custom_templates w)"

text \<open>
  \<open>get_custom_templates\<close> (lines 154-202). \<open>listing\<close> is the result of
  \<open>os.listdir(search_dir)\<close>; \<open>replace_rules\<close> is \<open>None\<close> or the configured dictionary.
\<close>

definition get_custom_templates ::
  "string \<Rightarrow> string list \<Rightarrow> (string \<times> string) list option \<Rightarrow> world \<Rightarrow>
   ((string \<times> string) list \<times> (string \<times> string) list) \<times> world" where
  "get_custom_templates search_dir listing replace_rules w =
     (let (custom_templates, w') = scan_templates search_dir listing [] w
      in if custom_templates = [] then (([], []), w')
         else (let final_replace_rules = [(''CaseName'', ''CASE_NUMBER'')]
               in case replace_rules of
                    None \<Rightarrow> ((custom_templates, final_replace_rules), w')
                  | Some rules \<Rightarrow>
                      ((custom_templates, dict_update final_replace_rules rules), w')))"

text \<open>Lines 467-470: the rules in the dictionary's order, on the whole content.\<close>

fun apply_rules :: "(string \<times> string) list \<Rightarrow> string \<Rightarrow> string \<Rightarrow> string" where
  "apply_rules [] case_no content = content"
| "apply_rules ((old, new) # rest) case_no content =
     apply_rules rest case_no
       (replace old (if new = ''CASE_NUMBER'' then case_no else new) content)"

text \<open>Lines 466-471: the replacements applied to the copied custom template.\<close>

definition custom_content ::
  "(string \<times> string) list \<Rightarrow> string \<Rightarrow> string \<Rightarrow> string \<Rightarrow> string \<Rightarrow> string" where
  "custom_content replace_rules display_name output_filename case_no content =
     (let content1 = replace ''CaseName'' case_no content;
          content2 = apply_rules replace_rules case_no content1
      in replace (''template_'' @ fst (splitext display_name))
           (fst (splitext output_filename)) content2)"

text \<open>The body of the inner loop (lines 458-474) for one template of one case.\<close>

definition process_custom_template ::
  "(string \<times> string) list \<Rightarrow> string \<Rightarrow> nat \<Rightarrow> nat \<Rightarrow> string \<times> string \<Rightarrow>
   string list \<Rightarrow> world \<Rightarrow> string list outcome" where
  "process_custom_template replace_rules output_folder_path num_rows row_index template
     generated_files w =
     (let case_no = case_number num_rows row_index;
          display_name = fst template;
          template_path = snd template;
          output_filename =
            fst (splitext display_name) @ ''_'' @ case_no @ snd (splitext display_name);
          output_path = normalize_path (output_folder_path @ ''/'' @ output_filename)
      in case shutil_copy template_path output_path w of
           Raised e w' \<Rightarrow> Raised e w'
         | Returned u w' \<Rightarrow>
             (case open_read output_path w' of
                Raised e w'' \<Rightarrow> Raised e w''
              | Returned content w'' \<Rightarrow>
                  Returned (generated_files @ [output_path])
                    (rewrite output_path
                       (custom_content replace_rules display_name output_filename case_no content)
                       w'')))"

fun for_custom_templates ::
  "(string \<times> string) list \<Rightarrow> string \<Rightarrow> nat \<Rightarrow> nat \<Rightarrow> (string \<times> string) list \<Rightarrow>
   string list \<Rightarrow> world \<Rightarrow> string list outcome" where
  "for_custom_templates rules out num_rows row_index [] generated_files w =
     Returned generated_files w"
| "for_custom_templates rules out num_rows row_index (t # ts) generated_files w =
     (case process_custom_template rules out num_rows row_index t generated_files w of
        Raised e w' \<Rightarrow> Raised e w'
      | Returned generated_files' w' \<Rightarrow>
          for_custom_templates rules out num_rows row_index ts generated_files' w')"

fun for_custom_rows ::
  "(string \<times> string) list \<Rightarrow> string \<Rightarrow> nat \<Rightarrow> (string \<times> string) list \<Rightarrow> nat list \<Rightarrow>
   string list \<Rightarrow> world \<Rightarrow> string list outcome" where
  "for_custom_rows rules out num_rows templates [] generated_files w =
     Returned generated_files w"
| "for_custom_rows rules out num_rows templates (row_index # rows) generated_files w =
     (case for_custom_templates rules out num_rows row_index templates generated_files w of
        Raised e w' \<Rightarrow> Raised e w'
      | Returned generated_files' w' \<Rightarrow>
          for_custom_rows rules out num_rows templates rows generated_files' w')"

text \<open>\<open>process_custom_templates\<close> (lines 414-476).\<close>

definition process_custom_templates ::
  "(string \<times> string) list \<Rightarrow> param_table \<Rightarrow> string \<Rightarrow> (string \<times> string) list \<Rightarrow> world \<Rightarrow>
   string list outcome" where
  "process_custom_templates custom_templates table output_folder_path replace_rules w =
     (case min_len table of
        None \<Rightarrow> Raised ValueError w
      | Some num_rows \<Rightarrow>
          for_custom_rows replace_rules output_folder_path num_rows custom_templates
            [0..<num_rows] [] w)"

section \<open>The output folder\<close>

text \<open>
  \<open>CreatOutputFolder\<close> (lines 204-239). \<open>abspath\<close> stands for \<open>os.path.abspath\<close>, which
  depends on the working directory, and \<open>default_folder\<close> for the \<open>batch_cases\<close>
  folder beside the script. The local \<open>output_path\<close> is bound only in the branch of a
  non-empty argument; reading it unbound raises inside the \<open>try\<close>, whose handler logs
  and falls off the end of the function, returning \<open>None\<close>.
\<close>

definition CreatOutputFolder ::
  "(string \<Rightarrow> string) \<Rightarrow> string \<Rightarrow> string \<Rightarrow> world \<Rightarrow> string option \<times> world" where
  "CreatOutputFolder abspath default_folder OutputFolderPath w =
     (let w1 = logging INFO OutputPathHeader w;
          w2 = logging INFO (DefaultOutputPath default_folder) w1;
          (output_path, w3) =
            (if OutputFolderPath \<noteq> []
             then (Some (abspath OutputFolderPath),
                   logging INFO (UserConfigPath (abspath OutputFolderPath)) w2)
             else (None, w2))
      in case output_path of
           None \<Rightarrow>
             (None, logging ERROR CheckPathHint
                      (logging ERROR (OutputDirFailed UnboundLocalError) w3))
         | Some p \<Rightarrow>
             (case makedirs p w3 of
                Raised e w4 \<Rightarrow>
                  (None, logging ERROR CheckPathHint (logging ERROR (OutputDirFailed e) w4))
              | Returned u w4 \<Rightarrow> (Some p, logging INFO (OutputDirConfirmed p) w4)))"

section \<open>Batch execution\<close>

text \<open>
  \<open>execute_case\<close> (lines 359-392). \<open>tool\<close> stands for \<open>os.system\<close> running the
  simulation: it raises or returns an exit code. \<open>timestamp\<close> stands for the formatted
  \<open>datetime.now()\<close>. Every exception inside the \<open>try\<close> makes the result \<open>False\<close>.
\<close>

definition execute_case ::
  "(command \<Rightarrow> error + int) \<Rightarrow> string \<Rightarrow> string \<Rightarrow> string \<Rightarrow> int \<Rightarrow>
   string \<times> string \<Rightarrow> world \<Rightarrow> bool \<times> world" where
  "execute_case tool timestamp log_dir output_folder_path SimParallelNumber job w =
     (let sim_file = fst job;
          java_file = snd job;
          case_no = fst (splitext (basename sim_file));
          log_file = path_join log_dir (case_no @ ''_'' @ timestamp @ ''.log'');
          starccm_command = \<lparr>cwd = output_folder_path, np = SimParallelNumber,
                             power_sim = basename sim_file, batch_macro = basename java_file,
                             log_to = log_file\<rparr>;
          w1 = logging INFO (CaseLogFile log_file) (logging INFO (CaseStarted case_no) w);
          w2 = w1\<lparr>commands := commands w1 @ [starccm_command]\<rparr>
      in case tool starccm_command of
           Inl e \<Rightarrow> (False, logging ERROR (CaseError sim_file e) w2)
         | Inr exit_code \<Rightarrow>
             if exit_code = 0 then
               (let w3 = logging INFO (CaseSucceeded case_no) w2;
                    backup_file = path_join output_folder_path (case_no @ ''.sim~'')
                in if backup_file \<in> dom (files w3) then
                     (if backup_file \<in> unwritable w3
                      then (False, logging ERROR
                                     (CaseError sim_file (PermissionError backup_file)) w3)
                      else (True, w3\<lparr>files := (files w3)(backup_file := None)\<rparr>))
                   else (True, w3))
             else (False, logging ERROR (CaseFailed case_no exit_code) w2))"

text \<open>
  Lines 402-410: the results are counted in the order in which the futures complete.
  Each job is taken as one step of the world, in that order.
\<close>

fun count_results ::
  "(command \<Rightarrow> error + int) \<Rightarrow> string \<Rightarrow> string \<Rightarrow> string \<Rightarrow> int \<Rightarrow>
   (string \<times> string) list \<Rightarrow> nat \<Rightarrow> world \<Rightarrow> nat \<times> world" where
  "count_results tool timestamp log_dir out n [] success_count w = (success_count, w)"
| "count_results tool timestamp log_dir out n (job # rest) success_count w =
     (case execute_case tool timestamp log_dir out n job w of
        (result, w') \<Rightarrow>
          count_results tool timestamp log_dir out n rest
            (if result then success_count + 1 else success_count) w')"

text \<open>
  \<open>process_sim_command\<close> (lines 316-412). \<open>as_completed\<close> gives the order in which the
  submitted jobs complete. \<open>ThreadPoolExecutor\<close> raises \<open>ValueError\<close> for a
  \<open>max_workers\<close> that is not positive.
\<close>

definition process_sim_command ::
  "(command \<Rightarrow> error + int) \<Rightarrow> string \<Rightarrow>
   ((string \<times> string) list \<Rightarrow> (string \<times> string) list) \<Rightarrow>
   string list \<Rightarrow> string list \<Rightarrow> string \<Rightarrow> int \<Rightarrow> int \<Rightarrow> world \<Rightarrow> unit outcome" where
  "process_sim_command tool timestamp as_completed sim_files java_files output_folder_path
     SimParallelNumber max_threads w =
     (if length sim_files \<noteq> length java_files
      then Returned ()
             (logging ERROR (CountMismatch (length sim_files) (length java_files)) w)
      else
        (let w1 = logging INFO (CountMatch (length sim_files) (length java_files)) w;
             log_dir = path_join output_folder_path ''execution_logs''
         in case makedirs log_dir w1 of
              Raised e w2 \<Rightarrow> Raised e w2
            | Returned u w2 \<Rightarrow>
                if max_threads \<le> 0 then Raised ValueError w2
                else
                  (case count_results tool timestamp log_dir output_folder_path
                          SimParallelNumber (as_completed (zip sim_files java_files)) 0 w2 of
                     (success_count, w3) \<Rightarrow>
                       Returned ()
                         (logging INFO (RunFinished success_count (length sim_files)) w3))))"

section \<open>Notions used to state the properties\<close>

text \<open>The digits of \<open>n\<close> in exactly \<open>w\<close> places (the low-order \<open>w\<close> digits).\<close>

fun fixed_digits :: "nat \<Rightarrow> nat \<Rightarrow> string" where
  "fixed_digits 0 n = []"
| "fixed_digits (Suc w) n = fixed_digits w (n div 10) @ [digit_char (n mod 10)]"








text \<open>
  What \<open>execute_case\<close> derives from a job: the case name, the command line and the
  backup file it removes after exit code 0.
\<close>

definition case_of_sim :: "string \<Rightarrow> string" where
  "case_of_sim sim_file = fst (splitext (basename sim_file))"

definition command_of :: "string \<Rightarrow> string \<Rightarrow> string \<Rightarrow> int \<Rightarrow> string \<times> string \<Rightarrow> command" where
  "command_of timestamp log_dir out n job =
     \<lparr>cwd = out, np = n, power_sim = basename (fst job), batch_macro = basename (snd job),
      log_to = path_join log_dir (case_of_sim (fst job) @ ''_'' @ timestamp @ ''.log'')\<rparr>"

definition backup_of :: "string \<Rightarrow> string \<times> string \<Rightarrow> string" where
  "backup_of out job = path_join out (case_of_sim (fst job) @ ''.sim~'')"

text \<open>
  Whether a job counts as a success: the tool returned exit code 0 and removing the
  backup file, where one exists, raised nothing.
\<close>

definition job_ok ::
  "(command \<Rightarrow> error + int) \<Rightarrow> string \<Rightarrow> string \<Rightarrow> string \<Rightarrow> int \<Rightarrow> world \<Rightarrow>
   string \<times> string \<Rightarrow> bool" where
  "job_ok tool timestamp log_dir out n w job =
     (tool (command_of timestamp log_dir out n job) = Inr 0
      \<and> \<not> (backup_of out job \<in> dom (files w) \<and> backup_of out job \<in> unwritable w))"

section \<open>A small run used in the examples\<close>

text \<open>The templates lie in \<open>t\<close>; the output folder \<open>out\<close> exists.\<close>

definition example_world :: world where
  "example_world =
     \<lparr>files = [''t/template_Macro.java'' \<mapsto>
                 ''load template_Macro; name CaseName; save SavePath; T=Tin'',
               ''t/template_Case.sim'' \<mapsto> ''inlet_temp = Tin'',
               ''t/template_Report.txt'' \<mapsto> ''report of CaseName by template_Report''],
      dirs = {''out''}, unwritable = {}, log = [], commands = []\<rparr>"

definition example_table :: param_table where
  "example_table = [(''Tin'', [IntCell 300, IntCell 350])]"

definition example_templates :: "(string \<times> string) list" where
  "example_templates = required_dict ''t/template_Macro.java'' ''t/template_Case.sim''"




text \<open>The world an outcome leaves, and whether the outcome is an exception.\<close>

fun final_world :: "'a outcome \<Rightarrow> world" where
  "final_world (Raised e w) = w"
| "final_world (Returned x w) = w"

fun has_raised :: "'a outcome \<Rightarrow> bool" where
  "has_raised (Raised e w) = True"
| "has_raised (Returned x w) = False"

text \<open>Two tools for the examples: one always exits with 0, one cannot be launched for
  the second case.\<close>

definition zero_exit_tool :: "command \<Rightarrow> error + int" where
  "zero_exit_tool c = Inr 0"

definition example_tool :: "command \<Rightarrow> error + int" where
  "example_tool c =
     (if power_sim c = ''Case2.sim'' then Inl (FileNotFoundError ''starccm+'') else Inr 0)"

text \<open>A world where the backup file of the first case exists and cannot be removed.\<close>

definition backup_locked_world :: world where
  "backup_locked_world =
     example_world\<lparr>files := (files example_world)(''out/Case1.sim~'' \<mapsto> ''backup''),
                    unwritable := {''out/Case1.sim~''}\<rparr>"

text \<open>The existing files that cannot be removed.\<close>

definition locked :: "world \<Rightarrow> string set" where
  "locked w = dom (files w) \<inter> unwritable w"

text \<open>An \<open>abspath\<close> for the examples: the working directory is \<open>C:/work\<close>.\<close>

definition example_abspath :: "string \<Rightarrow> string" where
  "example_abspath p = ''C:/work/'' @ p"







section \<open>Case identifiers: width, distinctness, order\<close>

lemma of_char_digit_char: "d < 10 \<Longrightarrow> (of_char (digit_char d) :: nat) = 48 + d"
  unfolding digit_char_def by (simp only: of_char_of) simp

lemma digit_char_inj:
  assumes "d < 10" "e < 10" "digit_char d = digit_char e"
  shows "d = e"
proof -
  have "(of_char (digit_char d) :: nat) = of_char (digit_char e)"
    using assms(3) by simp
  then have "48 + d = 48 + e"
    using assms(1,2) by (simp only: of_char_digit_char)
  then show ?thesis by simp
qed

lemma digit_char_0: "digit_char 0 = CHR ''0''"
  by code_simp

lemma length_fixed_digits [simp]: "length (fixed_digits w n) = w"
  by (induction w arbitrary: n) auto

lemma fixed_digits_zero: "fixed_digits w 0 = replicate w CHR ''0''"
  by (induction w) (auto simp: digit_char_0 replicate_append_same)

lemma str_nat_length_pos: "0 < length (str_nat n)"
  by (subst str_nat.simps) simp

lemma str_nat_bound: "n < 10 ^ length (str_nat n)"
proof (induction n rule: str_nat.induct)
  case (1 n)
  show ?case
  proof (cases "n < 10")
    case True
    then show ?thesis by (subst str_nat.simps) simp
  next
    case False
    with 1 have "n div 10 < 10 ^ length (str_nat (n div 10))" by simp
    then have "n < 10 * 10 ^ length (str_nat (n div 10))" by simp
    with False show ?thesis by (subst str_nat.simps) simp
  qed
qed

lemma str_nat_length_mono: "m \<le> n \<Longrightarrow> length (str_nat m) \<le> length (str_nat n)"
proof (induction n arbitrary: m rule: str_nat.induct)
  case (1 n)
  show ?case
  proof (cases "n < 10")
    case True
    with 1(2) have "m < 10" by simp
    with True show ?thesis by (simp add: str_nat.simps[of m] str_nat.simps[of n])
  next
    case False
    show ?thesis
    proof (cases "m < 10")
      case True
      with False show ?thesis by (simp add: str_nat.simps[of m] str_nat.simps[of n])
    next
      case mf: False
      from 1(2) have "m div 10 \<le> n div 10" by (simp add: div_le_mono)
      with 1(1) False have "length (str_nat (m div 10)) \<le> length (str_nat (n div 10))" by simp
      with False mf show ?thesis by (simp add: str_nat.simps[of m] str_nat.simps[of n])
    qed
  qed
qed

lemma format_0d_fixed: "length (str_nat n) \<le> w \<Longrightarrow> format_0d w n = fixed_digits w n"
proof (induction n arbitrary: w rule: str_nat.induct)
  case (1 n)
  from 1(2) str_nat_length_pos[of n] obtain w' where w: "w = Suc w'" by (cases w) auto
  show ?case
  proof (cases "n < 10")
    case True
    then show ?thesis
      by (simp add: w format_0d_def str_nat.simps[of n] fixed_digits_zero)
  next
    case False
    with 1(2) w have le: "length (str_nat (n div 10)) \<le> w'" by (simp add: str_nat.simps[of n])
    with 1(1) False have "format_0d w' (n div 10) = fixed_digits w' (n div 10)" by simp
    with False show ?thesis
      by (simp add: w format_0d_def str_nat.simps[of n])
  qed
qed

lemma str_less_snoc:
  "length xs = length ys \<Longrightarrow>
   str_less (xs @ [a]) (ys @ [b]) = (str_less xs ys \<or> (xs = ys \<and> (of_char a :: nat) < of_char b))"
  by (induction xs ys rule: list_induct2) auto

lemma str_less_append_same: "str_less (p @ s) (p @ t) = str_less s t"
  by (induction p) auto

lemma fixed_digits_inj:
  "m < 10 ^ w \<Longrightarrow> n < 10 ^ w \<Longrightarrow> fixed_digits w m = fixed_digits w n \<Longrightarrow> m = n"
proof (induction w arbitrary: m n)
  case 0
  then show ?case by simp
next
  case (Suc w)
  from Suc.prems have a: "m div 10 < 10 ^ w" "n div 10 < 10 ^ w"
    by (simp_all add: less_mult_imp_div_less mult.commute)
  from Suc.prems(3) have e: "fixed_digits w (m div 10) = fixed_digits w (n div 10)"
    "digit_char (m mod 10) = digit_char (n mod 10)" by simp_all
  from Suc.IH[OF a e(1)] have "m div 10 = n div 10" .
  moreover from e(2) have "m mod 10 = n mod 10" by (intro digit_char_inj) simp_all
  ultimately show ?case by (metis div_mult_mod_eq)
qed

lemma fixed_digits_less:
  "m < 10 ^ w \<Longrightarrow> n < 10 ^ w \<Longrightarrow> str_less (fixed_digits w m) (fixed_digits w n) = (m < n)"
proof (induction w arbitrary: m n)
  case 0
  then show ?case by simp
next
  case (Suc w)
  from Suc.prems have a: "m div 10 < 10 ^ w" "n div 10 < 10 ^ w"
    by (simp_all add: less_mult_imp_div_less mult.commute)
  have ih: "str_less (fixed_digits w (m div 10)) (fixed_digits w (n div 10)) = (m div 10 < n div 10)"
    using Suc.IH[OF a] .
  have eq: "(fixed_digits w (m div 10) = fixed_digits w (n div 10)) = (m div 10 = n div 10)"
    using fixed_digits_inj[OF a] by auto
  have "str_less (fixed_digits (Suc w) m) (fixed_digits (Suc w) n)
      = (m div 10 < n div 10 \<or> (m div 10 = n div 10 \<and> m mod 10 < n mod 10))"
    by (simp add: str_less_snoc ih eq of_char_digit_char)
  also have "\<dots> = (10 * (m div 10) + m mod 10 < 10 * (n div 10) + n mod 10)"
  proof -
    have "m mod 10 < 10" "n mod 10 < 10" by simp_all
    then show ?thesis by linarith
  qed
  also have "\<dots> = (m < n)"
    by (simp only: mult_div_mod_eq)
  finally show ?case .
qed

lemma row_width: "i < N \<Longrightarrow> length (str_nat (i + 1)) \<le> num_digits N"
  unfolding num_digits_def by (rule str_nat_length_mono) simp

lemma row_bound: "i < N \<Longrightarrow> i + 1 < 10 ^ num_digits N"
proof -
  assume "i < N"
  then have "i + 1 \<le> N" by simp
  also have "N < 10 ^ num_digits N" unfolding num_digits_def by (rule str_nat_bound)
  finally show ?thesis .
qed

lemma case_number_fixed:
  "i < N \<Longrightarrow> case_number N i = ''Case'' @ fixed_digits (num_digits N) (i + 1)"
  unfolding case_number_def by (simp only: format_0d_fixed[OF row_width])

lemma length_case_number: "i < N \<Longrightarrow> length (case_number N i) = 4 + num_digits N"
  by (simp add: case_number_fixed)

lemma case_number_inj:
  assumes "i < N" "j < N" "case_number N i = case_number N j"
  shows "i = j"
proof -
  from assms have "fixed_digits (num_digits N) (i + 1) = fixed_digits (num_digits N) (j + 1)"
    by (simp add: case_number_fixed)
  from fixed_digits_inj[OF row_bound[OF assms(1)] row_bound[OF assms(2)] this]
  show ?thesis by simp
qed

lemma case_number_less:
  assumes "i < N" "j < N"
  shows "str_less (case_number N i) (case_number N j) = (i < j)"
proof -
  have "str_less (case_number N i) (case_number N j)
      = str_less (fixed_digits (num_digits N) (i + 1)) (fixed_digits (num_digits N) (j + 1))"
    by (simp only: case_number_fixed[OF assms(1)] case_number_fixed[OF assms(2)]
        str_less_append_same)
  also have "\<dots> = (i + 1 < j + 1)"
    by (rule fixed_digits_less[OF row_bound[OF assms(1)] row_bound[OF assms(2)]])
  finally show ?thesis by simp
qed

text \<open>
  Claim C3. For a run of \<open>N\<close> cases and row indices \<open>i, j\<close> below \<open>N\<close>: the identifier of
  row \<open>i\<close> is \<open>Case\<close> followed by the decimal digits of \<open>i + 1\<close>, padded with zeros on the
  left to the number of digits of \<open>N\<close>; the digits of \<open>i + 1\<close> never exceed that width,
  so every identifier of the run has the same length; two rows have the same identifier
  only if they are the same row; and the identifiers compare as strings the way their
  rows compare as numbers.
\<close>

theorem case_number_padded_distinct_sorted:
  assumes "i < N" and "j < N"
  shows "case_number N i =
           ''Case'' @ replicate (num_digits N - length (str_nat (i + 1))) CHR ''0'' @ str_nat (i + 1)
       \<and> length (str_nat (i + 1)) \<le> num_digits N
       \<and> length (case_number N i) = 4 + num_digits N
       \<and> ((case_number N i = case_number N j) = (i = j))
       \<and> (str_less (case_number N i) (case_number N j) = (i < j))"
proof -
  have "case_number N i =
      ''Case'' @ replicate (num_digits N - length (str_nat (i + 1))) CHR ''0'' @ str_nat (i + 1)"
    by (simp add: case_number_def format_0d_def)
  moreover have "(case_number N i = case_number N j) = (i = j)"
    using case_number_inj[OF assms] by auto
  ultimately show ?thesis
    using row_width[OF assms(1)] length_case_number[OF assms(1)] case_number_less[OF assms]
    by simp
qed

theorem case_number_padded_distinct_sorted_witness:
  "(3::nat) < 12 \<and> (10::nat) < 12
 \<and> case_number 12 3 = ''Case04'' \<and> case_number 12 10 = ''Case11''
 \<and> length (case_number 12 3) = 4 + num_digits 12
 \<and> case_number 12 3 \<noteq> case_number 12 10
 \<and> str_less (case_number 12 3) (case_number 12 10)"
proof -
  have h: "(3::nat) < 12" "(10::nat) < 12" by simp_all
  have e: "case_number 12 3 = ''Case04''" "case_number 12 10 = ''Case11''" by code_simp+
  from case_number_padded_distinct_sorted[OF h]
  have "length (case_number 12 3) = 4 + num_digits 12"
    and "(case_number 12 3 = case_number 12 10) = ((3::nat) = 10)"
    and "str_less (case_number 12 3) (case_number 12 10) = ((3::nat) < 10)"
    by blast+
  then show ?thesis using e by simp
qed


section \<open>Evaluation of the example run\<close>

lemma ex_min_len: "min_len example_table = Some 2"
  by code_simp

lemma ex_case_numbers: "case_number 2 0 = ''Case1''" "case_number 2 (Suc 0) = ''Case2''"
  by code_simp+

lemma ex_rows: "[0..<2] = [0, Suc 0]"
  by code_simp



lemma ex_java_content:
  "java_content example_table ''out'' ''Macro_Case1.java'' ''Case1'' 0
     ''load template_Macro; name CaseName; save SavePath; T=Tin''
   = Some ''load Macro_Case1; name Case1; save out/Case1.sim; T=300''"
  "java_content example_table ''out'' ''Macro_Case2.java'' ''Case2'' (Suc 0)
     ''load template_Macro; name CaseName; save SavePath; T=Tin''
   = Some ''load Macro_Case2; name Case2; save out/Case2.sim; T=350''"
  by code_simp+

section \<open>The empty parameter table\<close>

lemma required_template_no_ValueError:
  "process_required_template table out N i t acc w = Raised e w' \<Longrightarrow> e \<noteq> ValueError"
  by (auto simp: process_required_template_def Let_def shutil_copy_def open_read_def
      split: if_splits option.splits outcome.splits)

lemma for_required_templates_no_ValueError:
  "for_required_templates table out N i ts acc w = Raised e w' \<Longrightarrow> e \<noteq> ValueError"
  by (induction ts arbitrary: acc w)
     (auto split: outcome.splits dest: required_template_no_ValueError)

lemma for_required_rows_no_ValueError:
  "for_required_rows table out N ts rows acc w = Raised e w' \<Longrightarrow> e \<noteq> ValueError"
  by (induction rows arbitrary: acc w)
     (auto split: outcome.splits dest: for_required_templates_no_ValueError)

lemma custom_template_no_ValueError:
  "process_custom_template rules out N i t acc w = Raised e w' \<Longrightarrow> e \<noteq> ValueError"
  by (auto simp: process_custom_template_def Let_def shutil_copy_def open_read_def
      split: if_splits option.splits outcome.splits)

lemma for_custom_templates_no_ValueError:
  "for_custom_templates rules out N i ts acc w = Raised e w' \<Longrightarrow> e \<noteq> ValueError"
  by (induction ts arbitrary: acc w)
     (auto split: outcome.splits dest: custom_template_no_ValueError)

lemma for_custom_rows_no_ValueError:
  "for_custom_rows rules out N ts rows acc w = Raised e w' \<Longrightarrow> e \<noteq> ValueError"
  by (induction rows arbitrary: acc w)
     (auto split: outcome.splits dest: for_custom_templates_no_ValueError)

lemma min_len_None: "(min_len table = None) = (table = [])"
  by (induction table rule: min_len.induct) (auto split: option.splits)

text \<open>
  Claim C9. With an empty parameter table both instantiation functions raise the
  \<open>ValueError\<close> of \<open>min\<close> and leave the world as it was: nothing has been written.
  With a table that is not empty neither function ever raises \<open>ValueError\<close>, whatever
  the templates, the folder and the world are.
\<close>

theorem empty_table_raises_before_writing:
  "process_required_templates templates [] out w = Raised ValueError w
 \<and> process_custom_templates customs [] out rules w = Raised ValueError w
 \<and> (table \<noteq> [] \<longrightarrow>
      process_required_templates templates table out w \<noteq> Raised ValueError w'
    \<and> process_custom_templates customs table out rules w \<noteq> Raised ValueError w')"
proof -
  have "process_required_templates templates [] out w = Raised ValueError w"
    by (simp add: process_required_templates_def)
  moreover have "process_custom_templates customs [] out rules w = Raised ValueError w"
    by (simp add: process_custom_templates_def)
  moreover have "process_required_templates templates table out w \<noteq> Raised ValueError w'"
    if "table \<noteq> []"
  proof -
    from that obtain N where "min_len table = Some N"
      using min_len_None[of table] by (cases "min_len table") auto
    then show ?thesis
      by (auto simp: process_required_templates_def dest: for_required_rows_no_ValueError)
  qed
  moreover have "process_custom_templates customs table out rules w \<noteq> Raised ValueError w'"
    if "table \<noteq> []"
  proof -
    from that obtain N where "min_len table = Some N"
      using min_len_None[of table] by (cases "min_len table") auto
    then show ?thesis
      by (auto simp: process_custom_templates_def dest: for_custom_rows_no_ValueError)
  qed
  ultimately show ?thesis by blast
qed

theorem empty_table_raises_before_writing_witness:
  "example_table \<noteq> []
 \<and> process_required_templates example_templates example_table ''out'' example_world
     \<noteq> Raised ValueError example_world
 \<and> process_custom_templates [(''Report.txt'', ''t/template_Report.txt'')] example_table ''out''
       [(''CaseName'', ''CASE_NUMBER'')] example_world
     \<noteq> Raised ValueError example_world"
proof -
  have h: "example_table \<noteq> []" by (simp add: example_table_def)
  show ?thesis
    using h empty_table_raises_before_writing
            [of example_templates "''out''" example_world
                "[(''Report.txt'', ''t/template_Report.txt'')]"
                "[(''CaseName'', ''CASE_NUMBER'')]" example_table example_world]
    by blast
qed

section \<open>The output folder\<close>

text \<open>
  Claim C10. Called with the empty path, \<open>CreatOutputFolder\<close> returns \<open>None\<close>: the
  default folder appears in the log only, the read of the unbound local raises
  \<open>UnboundLocalError\<close> inside the \<open>try\<close>, the handler logs it, and no directory is
  created. Whenever the function returns a path, the argument was not empty, the path
  is the absolute path of the argument, and that directory exists afterwards; calling
  again with the same argument returns the same path and creates nothing more.
\<close>

theorem output_folder_empty_path_returns_None:
  "CreatOutputFolder abspath default_folder [] w =
     (None, w\<lparr>log := log w @ [(INFO, OutputPathHeader), (INFO, DefaultOutputPath default_folder),
                              (ERROR, OutputDirFailed UnboundLocalError), (ERROR, CheckPathHint)]\<rparr>)
 \<and> dirs (snd (CreatOutputFolder abspath default_folder [] w)) = dirs w
 \<and> (fst (CreatOutputFolder abspath default_folder p w) = Some q \<longrightarrow>
       p \<noteq> [] \<and> q = abspath p
     \<and> dirs (snd (CreatOutputFolder abspath default_folder p w)) = insert q (dirs w)
     \<and> fst (CreatOutputFolder abspath default_folder p
              (snd (CreatOutputFolder abspath default_folder p w))) = Some q
     \<and> dirs (snd (CreatOutputFolder abspath default_folder p
              (snd (CreatOutputFolder abspath default_folder p w)))) = insert q (dirs w))"
  by (auto simp: CreatOutputFolder_def logging_def makedirs_def Let_def
      split: if_splits outcome.splits prod.splits)

theorem output_folder_empty_path_returns_None_witness:
  "fst (CreatOutputFolder example_abspath ''C:/work/batch_cases'' ''out'' example_world)
     = Some ''C:/work/out''
 \<and> ''out'' \<noteq> []
 \<and> dirs (snd (CreatOutputFolder example_abspath ''C:/work/batch_cases'' ''out''
            example_world)) = insert ''C:/work/out'' (dirs example_world)"
proof -
  have h: "fst (CreatOutputFolder example_abspath ''C:/work/batch_cases'' ''out''
             example_world) = Some ''C:/work/out''"
    by (simp add: CreatOutputFolder_def logging_def makedirs_def Let_def example_world_def
        example_abspath_def)
  show ?thesis
    using h output_folder_empty_path_returns_None
              [of example_abspath "''C:/work/batch_cases''" example_world
                  "''out''" "''C:/work/out''"]
    by blast
qed

section \<open>A mismatch of the two file lists\<close>

text \<open>
  Claim C6. When the list of case files and the list of macro files differ in length,
  \<open>process_sim_command\<close> returns without raising, and the world it leaves differs from
  the one it found in a single error record of the log: no directory is created, no
  file changes and no command is handed to the system. Since it returns normally, the
  caller goes on to its next step.
\<close>

theorem count_mismatch_returns_without_launch:
  "length sim_files \<noteq> length java_files \<Longrightarrow>
   process_sim_command tool timestamp as_completed sim_files java_files out n max_threads w
     = Returned ()
         (w\<lparr>log := log w @ [(ERROR, CountMismatch (length sim_files) (length java_files))]\<rparr>)"
  by (simp add: process_sim_command_def logging_def)

theorem count_mismatch_returns_without_launch_witness:
  "length [''out/Case1.sim''] \<noteq> length ([] :: string list)
 \<and> process_sim_command zero_exit_tool ''t'' id [''out/Case1.sim''] [] ''out'' 1 4 example_world
     = Returned () (example_world\<lparr>log := log example_world @ [(ERROR, CountMismatch 1 0)]\<rparr>)"
  using count_mismatch_returns_without_launch
          [of "[''out/Case1.sim'']" "[]" zero_exit_tool "''t''" id "''out''" 1 4 example_world]
  by simp

section \<open>Batch execution\<close>

lemma execute_case_result:
  "fst (execute_case tool ts ld out n job w) = job_ok tool ts ld out n w job"
  by (auto simp: execute_case_def job_ok_def command_of_def backup_of_def case_of_sim_def
      Let_def logging_def split: sum.splits)

lemma execute_case_locked:
  "locked (snd (execute_case tool ts ld out n job w)) = locked w"
  by (auto simp: execute_case_def Let_def logging_def locked_def split: sum.splits if_splits)

lemma job_ok_locked:
  "locked w = locked w' \<Longrightarrow> job_ok tool ts ld out n w job = job_ok tool ts ld out n w' job"
  by (auto simp: job_ok_def locked_def)

lemma count_results_count:
  "fst (count_results tool ts ld out n jobs c w)
     = c + length (filter (job_ok tool ts ld out n w) jobs)"
proof (induction jobs arbitrary: c w)
  case Nil
  then show ?case by simp
next
  case (Cons job jobs)
  obtain r w' where e: "execute_case tool ts ld out n job w = (r, w')"
    by (cases "execute_case tool ts ld out n job w")
  from e have r: "r = job_ok tool ts ld out n w job"
    using execute_case_result[of tool ts ld out n job w] by simp
  from e have "locked w' = locked w"
    using execute_case_locked[of tool ts ld out n job w] by simp
  then have "job_ok tool ts ld out n w' = job_ok tool ts ld out n w"
    by (intro ext job_ok_locked)
  with Cons.IH[of "if r then c + 1 else c" w'] e r show ?case by simp
qed

lemma execute_case_log:
  "\<exists>es. log (snd (execute_case tool ts ld out n job w)) = log w @ es
      \<and> (\<forall>e. tool (command_of ts ld out n job) = Inl e \<longrightarrow> (ERROR, CaseError (fst job) e) \<in> set es)
      \<and> (\<forall>c. tool (command_of ts ld out n job) = Inr c \<longrightarrow> c \<noteq> 0 \<longrightarrow>
               (ERROR, CaseFailed (case_of_sim (fst job)) c) \<in> set es)"
  by (auto simp: execute_case_def command_of_def case_of_sim_def Let_def logging_def
      split: sum.splits)

lemma count_results_log_mono:
  "set (log w) \<subseteq> set (log (snd (count_results tool ts ld out n jobs c w)))"
proof (induction jobs arbitrary: c w)
  case Nil
  then show ?case by simp
next
  case (Cons job jobs)
  obtain r w' where e: "execute_case tool ts ld out n job w = (r, w')"
    by (cases "execute_case tool ts ld out n job w")
  from execute_case_log[of tool ts ld out n job w] e have "set (log w) \<subseteq> set (log w')"
    by auto
  with Cons.IH[of w' "if r then c + 1 else c"] e show ?case by auto
qed

lemma count_results_records_exception:
  "job \<in> set jobs \<Longrightarrow> tool (command_of ts ld out n job) = Inl e \<Longrightarrow>
   (ERROR, CaseError (fst job) e) \<in> set (log (snd (count_results tool ts ld out n jobs c w)))"
proof (induction jobs arbitrary: c w)
  case Nil
  then show ?case by simp
next
  case (Cons j jobs)
  obtain r w' where ex: "execute_case tool ts ld out n j w = (r, w')"
    by (cases "execute_case tool ts ld out n j w")
  show ?case
  proof (cases "job = j")
    case True
    from execute_case_log[of tool ts ld out n j w] ex Cons.prems(2) True
    have "(ERROR, CaseError (fst job) e) \<in> set (log w')" by auto
    with count_results_log_mono[of w' tool ts ld out n jobs "if r then c + 1 else c"] ex
    show ?thesis by auto
  next
    case False
    with Cons.prems have "job \<in> set jobs" by simp
    from Cons.IH[OF this Cons.prems(2), of "if r then c + 1 else c" w'] ex
    show ?thesis by simp
  qed
qed

lemma filter_length_mset:
  "mset xs = mset ys \<Longrightarrow> length (filter P xs) = length (filter P ys)"
proof -
  assume "mset xs = mset ys"
  then have "mset (filter P xs) = mset (filter P ys)" by (simp only: mset_filter)
  then show ?thesis by (metis size_mset)
qed

lemma one_failure_count:
  assumes "k < length xs" "\<not> P (xs ! k)" "\<forall>j < length xs. j \<noteq> k \<longrightarrow> P (xs ! j)"
  shows "length (filter P xs) = length xs - 1"
proof -
  have split: "xs = take k xs @ xs ! k # drop (Suc k) xs"
    using assms(1) by (simp add: id_take_nth_drop)
  have a: "filter P (take k xs) = take k xs"
  proof (rule filter_True, rule ballI)
    fix x assume "x \<in> set (take k xs)"
    then obtain j where "j < k" "x = xs ! j"
      using assms(1) by (auto simp: in_set_conv_nth)
    with assms(1,3) show "P x" by auto
  qed
  have b: "filter P (drop (Suc k) xs) = drop (Suc k) xs"
  proof (rule filter_True, rule ballI)
    fix x assume "x \<in> set (drop (Suc k) xs)"
    then obtain j where "j < length xs - Suc k" "x = xs ! (Suc k + j)"
      by (auto simp: in_set_conv_nth)
    with assms(3) show "P x" by auto
  qed
  have "length (filter P xs) = length (filter P (take k xs @ xs ! k # drop (Suc k) xs))"
    using split by simp
  also have "\<dots> = length (take k xs) + length (drop (Suc k) xs)"
    using a b assms(2) by simp
  also have "\<dots> = length xs - 1"
    using assms(1) by simp
  finally show ?thesis .
qed


lemma makedirs_ok:
  "p \<in> dirs w \<or> (p \<notin> dom (files w) \<and> p \<notin> unwritable w) \<Longrightarrow>
   \<exists>w'. makedirs p w = Returned () w' \<and> files w' = files w \<and> unwritable w' = unwritable w
      \<and> log w' = log w"
  by (auto simp: makedirs_def)


lemma process_sim_command_summary:
  assumes "length sim_files = length java_files"
    and "mset (as_completed (zip sim_files java_files)) = mset (zip sim_files java_files)"
    and "0 < max_threads"
    and "path_join out ''execution_logs'' \<in> dirs w
         \<or> (path_join out ''execution_logs'' \<notin> dom (files w)
            \<and> path_join out ''execution_logs'' \<notin> unwritable w)"
  shows "\<exists>w3. process_sim_command tool timestamp as_completed sim_files java_files out n
                 max_threads w
               = Returned ()
                   (logging INFO
                      (RunFinished
                         (length (filter (job_ok tool timestamp (path_join out ''execution_logs'')
                                            out n w) (zip sim_files java_files)))
                         (length sim_files)) w3)
          \<and> (\<forall>job \<in> set (zip sim_files java_files). \<forall>e.
                tool (command_of timestamp (path_join out ''execution_logs'') out n job) = Inl e
                \<longrightarrow> (ERROR, CaseError (fst job) e) \<in> set (log w3))"
proof -
  let ?ld = "path_join out ''execution_logs''"
  let ?jobs = "zip sim_files java_files"
  let ?w1 = "logging INFO (CountMatch (length sim_files) (length java_files)) w"
  let ?ok = "job_ok tool timestamp ?ld out n w"
  from assms(4) have "?ld \<in> dirs ?w1 \<or> (?ld \<notin> dom (files ?w1) \<and> ?ld \<notin> unwritable ?w1)"
    by (simp add: logging_def)
  from makedirs_ok[OF this] obtain w2 where
    w2: "makedirs ?ld ?w1 = Returned () w2" "files w2 = files w" "unwritable w2 = unwritable w"
    by (auto simp: logging_def)
  obtain c w3 where cr:
    "count_results tool timestamp ?ld out n (as_completed ?jobs) 0 w2 = (c, w3)"
    by (cases "count_results tool timestamp ?ld out n (as_completed ?jobs) 0 w2")
  have run: "process_sim_command tool timestamp as_completed sim_files java_files out n
               max_threads w
             = Returned () (logging INFO (RunFinished c (length sim_files)) w3)"
    using assms(1,3) w2(1) cr by (simp add: process_sim_command_def Let_def)
  have "locked w2 = locked w" using w2(2,3) by (simp add: locked_def)
  then have ok2: "job_ok tool timestamp ?ld out n w2 = ?ok"
    by (intro ext job_ok_locked)
  have "c = length (filter ?ok (as_completed ?jobs))"
    using count_results_count[of tool timestamp ?ld out n "as_completed ?jobs" 0 w2] cr ok2
    by simp
  then have c: "c = length (filter ?ok ?jobs)"
    using filter_length_mset[OF assms(2)] by simp
  have rec: "(ERROR, CaseError (fst job) e) \<in> set (log w3)"
    if "job \<in> set ?jobs" "tool (command_of timestamp ?ld out n job) = Inl e" for job e
  proof -
    from that(1) assms(2) have "job \<in> set (as_completed ?jobs)"
      by (metis set_mset_mset)
    from count_results_records_exception
           [of job "as_completed ?jobs" tool timestamp ?ld out n e 0 w2, OF this that(2)] cr
    show ?thesis by simp
  qed
  show ?thesis
    unfolding run using c rec by blast
qed

text \<open>
  Claim C5, as the code has it. When the two lists have the same length, the log
  directory can be made and the pool size is positive, \<open>process_sim_command\<close> returns
  without raising whatever the jobs do, and its last log record reports as many
  successes as there are jobs with exit code 0 and no exception in the cleanup of the
  backup file. The number does not depend on the order in which the jobs complete.
  An exception of the tool for one job is logged as an error of that job. If exactly
  one job fails, the count is the number of jobs less one.
\<close>

theorem batch_count_is_order_independent:
  assumes "length sim_files = length java_files"
    and "mset (as_completed (zip sim_files java_files)) = mset (zip sim_files java_files)"
    and "0 < max_threads"
    and "path_join out ''execution_logs'' \<in> dirs w
         \<or> (path_join out ''execution_logs'' \<notin> dom (files w)
            \<and> path_join out ''execution_logs'' \<notin> unwritable w)"
  shows "\<not> has_raised (process_sim_command tool timestamp as_completed sim_files java_files
                         out n max_threads w)
    \<and> last (log (final_world (process_sim_command tool timestamp as_completed sim_files
                                java_files out n max_threads w)))
        = (INFO, RunFinished
             (length (filter (job_ok tool timestamp (path_join out ''execution_logs'') out n w)
                        (zip sim_files java_files)))
             (length sim_files))
    \<and> (\<forall>job \<in> set (zip sim_files java_files). \<forall>e.
          tool (command_of timestamp (path_join out ''execution_logs'') out n job) = Inl e \<longrightarrow>
          (ERROR, CaseError (fst job) e)
            \<in> set (log (final_world (process_sim_command tool timestamp as_completed sim_files
                                       java_files out n max_threads w))))
    \<and> (k < length sim_files
        \<and> \<not> job_ok tool timestamp (path_join out ''execution_logs'') out n w
              (zip sim_files java_files ! k)
        \<and> (\<forall>j < length sim_files. j \<noteq> k \<longrightarrow>
              job_ok tool timestamp (path_join out ''execution_logs'') out n w
                (zip sim_files java_files ! j))
        \<longrightarrow> last (log (final_world (process_sim_command tool timestamp as_completed sim_files
                                       java_files out n max_threads w)))
              = (INFO, RunFinished (length sim_files - 1) (length sim_files)))"
proof -
  let ?jobs = "zip sim_files java_files"
  let ?ok = "job_ok tool timestamp (path_join out ''execution_logs'') out n w"
  from process_sim_command_summary
         [where as_completed = as_completed and tool = tool and timestamp = timestamp
            and n = n, OF assms]
  obtain w3 where
    run: "process_sim_command tool timestamp as_completed sim_files java_files out n
            max_threads w
          = Returned () (logging INFO (RunFinished (length (filter ?ok ?jobs))
                           (length sim_files)) w3)"
    and rec: "\<forall>job \<in> set ?jobs. \<forall>e.
                tool (command_of timestamp (path_join out ''execution_logs'') out n job) = Inl e
                \<longrightarrow> (ERROR, CaseError (fst job) e) \<in> set (log w3)"
    by blast
  have one: "length (filter ?ok ?jobs) = length sim_files - 1"
    if "k < length sim_files" "\<not> ?ok (?jobs ! k)"
       "\<forall>j < length sim_files. j \<noteq> k \<longrightarrow> ?ok (?jobs ! j)"
  proof -
    have "length ?jobs = length sim_files" using assms(1) by simp
    with one_failure_count[of k ?jobs ?ok] that show ?thesis by simp
  qed
  show ?thesis
    unfolding run using rec one by (simp add: logging_def)
qed

lemma ex_jobs:
  "basename ''out/Case1.sim'' = ''Case1.sim''"
  "basename ''out/Case2.sim'' = ''Case2.sim''"
  "backup_of ''out/'' (''out/Case1.sim'', ''out/Macro_Case1.java'') = ''out/Case1.sim~''"
  "backup_of ''out/'' (''out/Case2.sim'', ''out/Macro_Case2.java'') = ''out/Case2.sim~''"
  "path_join ''out/'' ''execution_logs'' = ''out/execution_logs''"
  by code_simp+

lemma ex_job1_ok:
  "job_ok example_tool ''t'' ''out/execution_logs'' ''out/'' 1 example_world
     (''out/Case1.sim'', ''out/Macro_Case1.java'')"
  by (simp add: job_ok_def command_of_def example_tool_def ex_jobs example_world_def)

lemma ex_job2_fails:
  "\<not> job_ok example_tool ''t'' ''out/execution_logs'' ''out/'' 1 example_world
     (''out/Case2.sim'', ''out/Macro_Case2.java'')"
  by (simp add: job_ok_def command_of_def example_tool_def ex_jobs)

lemma ex_job_locked:
  "\<not> job_ok zero_exit_tool ''t'' ''out/execution_logs'' ''out/'' 1 backup_locked_world
     (''out/Case1.sim'', ''out/Macro_Case1.java'')"
  by (simp add: job_ok_def ex_jobs backup_locked_world_def example_world_def)

theorem batch_count_is_order_independent_witness:
  "length [''out/Case1.sim'', ''out/Case2.sim'']
     = length [''out/Macro_Case1.java'', ''out/Macro_Case2.java'']
 \<and> mset (rev (zip [''out/Case1.sim'', ''out/Case2.sim'']
                  [''out/Macro_Case1.java'', ''out/Macro_Case2.java'']))
     = mset (zip [''out/Case1.sim'', ''out/Case2.sim'']
                 [''out/Macro_Case1.java'', ''out/Macro_Case2.java''])
 \<and> (0::int) < 4
 \<and> \<not> has_raised (process_sim_command example_tool ''t'' rev
        [''out/Case1.sim'', ''out/Case2.sim'']
        [''out/Macro_Case1.java'', ''out/Macro_Case2.java''] ''out/'' 1 4 example_world)
 \<and> last (log (final_world (process_sim_command example_tool ''t'' rev
        [''out/Case1.sim'', ''out/Case2.sim'']
        [''out/Macro_Case1.java'', ''out/Macro_Case2.java''] ''out/'' 1 4 example_world)))
     = (INFO, RunFinished 1 2)
 \<and> (ERROR, CaseError ''out/Case2.sim'' (FileNotFoundError ''starccm+''))
     \<in> set (log (final_world (process_sim_command example_tool ''t'' rev
        [''out/Case1.sim'', ''out/Case2.sim'']
        [''out/Macro_Case1.java'', ''out/Macro_Case2.java''] ''out/'' 1 4 example_world)))"
proof -
  let ?sims = "[''out/Case1.sim'', ''out/Case2.sim'']"
  let ?javas = "[''out/Macro_Case1.java'', ''out/Macro_Case2.java'']"
  have h1: "length ?sims = length ?javas" by simp
  have h2: "mset (rev (zip ?sims ?javas)) = mset (zip ?sims ?javas)" by simp
  have h3: "(0::int) < 4" by simp
  have h4: "path_join ''out/'' ''execution_logs'' \<in> dirs example_world
         \<or> (path_join ''out/'' ''execution_logs'' \<notin> dom (files example_world)
            \<and> path_join ''out/'' ''execution_logs'' \<notin> unwritable example_world)"
    by (simp add: ex_jobs example_world_def)
  have k: "Suc 0 < length ?sims
        \<and> \<not> job_ok example_tool ''t'' (path_join ''out/'' ''execution_logs'') ''out/'' 1
              example_world (zip ?sims ?javas ! Suc 0)
        \<and> (\<forall>j < length ?sims. j \<noteq> Suc 0 \<longrightarrow>
              job_ok example_tool ''t'' (path_join ''out/'' ''execution_logs'') ''out/'' 1
                example_world (zip ?sims ?javas ! j))"
    using ex_job1_ok ex_job2_fails by (simp add: ex_jobs less_Suc_eq)
  have e: "example_tool (command_of ''t'' (path_join ''out/'' ''execution_logs'') ''out/'' 1
                           (''out/Case2.sim'', ''out/Macro_Case2.java''))
             = Inl (FileNotFoundError ''starccm+'')"
    by (simp add: command_of_def example_tool_def ex_jobs)
  let ?run = "process_sim_command example_tool ''t'' rev ?sims ?javas ''out/'' 1 4 example_world"
  note t = batch_count_is_order_independent
         [where as_completed = rev and tool = example_tool and timestamp = "''t''" and n = 1
            and k = "Suc 0", OF h1 h2 h3 h4]
  from t have r: "\<not> has_raised ?run" by blast
  from t k have c: "last (log (final_world ?run))
                   = (INFO, RunFinished (length ?sims - 1) (length ?sims))"
    by blast
  from t have "\<forall>job \<in> set (zip ?sims ?javas). \<forall>e.
          example_tool (command_of ''t'' (path_join ''out/'' ''execution_logs'') ''out/'' 1 job)
            = Inl e \<longrightarrow>
          (ERROR, CaseError (fst job) e) \<in> set (log (final_world ?run))"
    by blast
  with e have "(ERROR, CaseError ''out/Case2.sim'' (FileNotFoundError ''starccm+''))
                 \<in> set (log (final_world ?run))"
    by auto
  with r c show ?thesis by simp
qed

text \<open>
  The claim as written fails: the only job exits with code 0, removing its backup file
  raises inside the \<open>try\<close>, and the run reports no success.
\<close>

theorem cleanup_exception_counterexample:
  "zero_exit_tool (command_of ''t'' ''out/execution_logs'' ''out/'' 1
                     (''out/Case1.sim'', ''out/Macro_Case1.java'')) = Inr 0
 \<and> \<not> has_raised (process_sim_command zero_exit_tool ''t'' id [''out/Case1.sim'']
        [''out/Macro_Case1.java''] ''out/'' 1 4 backup_locked_world)
 \<and> last (log (final_world (process_sim_command zero_exit_tool ''t'' id [''out/Case1.sim'']
        [''out/Macro_Case1.java''] ''out/'' 1 4 backup_locked_world)))
     = (INFO, RunFinished 0 1)"
proof -
  let ?sims = "[''out/Case1.sim'']"
  let ?javas = "[''out/Macro_Case1.java'']"
  have h1: "length ?sims = length ?javas" by simp
  have h2: "mset (id (zip ?sims ?javas)) = mset (zip ?sims ?javas)" by simp
  have h3: "(0::int) < 4" by simp
  have h4: "path_join ''out/'' ''execution_logs'' \<in> dirs backup_locked_world
         \<or> (path_join ''out/'' ''execution_logs'' \<notin> dom (files backup_locked_world)
            \<and> path_join ''out/'' ''execution_logs'' \<notin> unwritable backup_locked_world)"
    by (simp add: ex_jobs backup_locked_world_def example_world_def)
  from process_sim_command_summary
         [where as_completed = id and tool = zero_exit_tool and timestamp = "''t''" and n = 1,
          OF h1 h2 h3 h4] ex_job_locked
  show ?thesis
    by (auto simp: ex_jobs logging_def zero_exit_tool_def)
qed


section \<open>The configured rule for the case name\<close>

lemma ex_scan:
  "get_custom_templates ''t/'' [''template_Macro.java'', ''template_Report.txt'', ''notes.txt'']
      (Some [(''CaseName'', ''Foo'')]) example_world
   = (([(''Report.txt'', ''t/template_Report.txt'')], [(''CaseName'', ''Foo'')]),
      example_world\<lparr>log := [(INFO, CustomTemplateFound),
                               (INFO, CustomTemplateName ''template_Report.txt'')]\<rparr>)"
  by (simp add: get_custom_templates_def path_join_def is_sep_def backslash_def logging_def
      example_world_def)

lemma ex_custom_names:
  "splitext ''Report.txt'' = (''Report'', ''.txt'')"
  "normalize_path ''out/Report_Case1.txt'' = ''out/Report_Case1.txt''"
  "normalize_path ''out/Report_Case2.txt'' = ''out/Report_Case2.txt''"
  "custom_content [(''CaseName'', ''Foo'')] ''Report.txt'' ''Report_Case1.txt'' ''Case1''
     ''report of CaseName by template_Report'' = ''report of Case1 by Report_Case1''"
  "custom_content [(''CaseName'', ''Foo'')] ''Report.txt'' ''Report_Case2.txt'' ''Case2''
     ''report of CaseName by template_Report'' = ''report of Case2 by Report_Case2''"
  by code_simp+

lemma ex_custom_dirs:
  "canon_dir (parent_dir ''out/Report_Case1.txt'') = ''out''"
  "canon_dir (parent_dir ''out/Report_Case2.txt'') = ''out''"
  "canon_dir ''out'' = ''out''"
  by code_simp+

text \<open>
  Claim C8 at a concrete input. The configured rule for \<open>CaseName\<close> reaches the rule
  set, which \<open>get_custom_templates\<close> returns as \<open>CaseName \<mapsto> Foo\<close>, but the generated
  files carry the case identifier where the template had \<open>CaseName\<close>: line 466
  replaces every \<open>CaseName\<close> before the rules are applied.
\<close>

theorem configured_case_name_rule_ignored:
  "(case get_custom_templates ''t/'' [''template_Macro.java'', ''template_Report.txt'', ''notes.txt'']
           (Some [(''CaseName'', ''Foo'')]) example_world of
      ((custom_templates, replace_rules), w) \<Rightarrow>
        replace_rules = [(''CaseName'', ''Foo'')] \<and>
        (case process_custom_templates custom_templates example_table ''out'' replace_rules w of
           Raised e w' \<Rightarrow> False
         | Returned generated_files w' \<Rightarrow>
             generated_files = [''out/Report_Case1.txt'', ''out/Report_Case2.txt'']
           \<and> files w' ''out/Report_Case1.txt'' = Some ''report of Case1 by Report_Case1''
           \<and> files w' ''out/Report_Case2.txt'' = Some ''report of Case2 by Report_Case2''))"
  unfolding ex_scan
  by (simp add: process_custom_templates_def ex_min_len ex_rows
      process_custom_template_def ex_case_numbers ex_custom_names shutil_copy_def open_read_def
      rewrite_def Let_def example_world_def dir_exists_def ex_custom_dirs)



section \<open>The files of a run of the required templates\<close>
























lemma dir_exists_files [simp]: "dir_exists (w\<lparr>files := f\<rparr>) d = dir_exists w d"
  by (simp add: dir_exists_def)



















lemma starts_with_Nil [simp]: "starts_with [] s"
  by (cases s) auto

lemma contains_Nil [simp]: "contains [] s"
  by (cases s) auto


lemma starts_with_contains: "starts_with p s \<Longrightarrow> contains p s"
  by (cases s) auto






























section \<open>A write failure while the required templates are instantiated\<close>







end
